theory Spec2Isabelle
  imports Main "HOL-Library.Word" "HOL-Library.Monad_Syntax"
begin

section \<open>Reference-counted objects\<close>

text \<open>
  A \<^verbatim>\<open>zeek::Obj*\<close> is an address; \<^verbatim>\<open>nullptr\<close> is address 0. The reference
  counts of all objects form the part of the heap the value layer acts on.
\<close>

type_synonym obj_ptr = "64 word"

definition nullptr :: obj_ptr where
  "nullptr = 0"

type_synonym ref_cnts = "obj_ptr \<Rightarrow> int"

text \<open>
  Modelled from the spec: \<^verbatim>\<open>Ref\<close> and \<^verbatim>\<open>Unref\<close> (Obj.h) are not under src.
  A managed value is "a shared, reference-counted heap allocation requiring explicit
  acquire/release": acquiring adds one to the object's count, releasing takes one away.
  The nil sentinel holds no reference, so releasing it changes nothing (SetElement
  releases the freshly zero-filled slot on every growth). \<^verbatim>\<open>Ref\<close> is for a
  pointer to an object: where the model applies it, the pointer is not null.
\<close>

definition Ref :: "obj_ptr \<Rightarrow> ref_cnts \<Rightarrow> ref_cnts" where
  "Ref p h = h(p := h p + 1)"

definition Unref :: "obj_ptr \<Rightarrow> ref_cnts \<Rightarrow> ref_cnts" where
  "Unref p h = (if p = nullptr then h else h(p := h p - 1))"

section \<open>Types\<close>

text \<open>
  Modelled from the spec: the type tags (Type.h) are not under src. The tags are the
  kinds named by the comments of ZAMValUnion and by section 3 of the specification,
  with \<^verbatim>\<open>TYPE_ANY\<close> and \<^verbatim>\<open>TYPE_VOID\<close> as SetYieldType names them.
\<close>

datatype TypeTag =
    TYPE_VOID | TYPE_BOOL | TYPE_INT | TYPE_ENUM
  | TYPE_COUNT | TYPE_COUNTER | TYPE_PORT
  | TYPE_DOUBLE | TYPE_TIME | TYPE_INTERVAL
  | TYPE_STRING | TYPE_ADDR | TYPE_SUBNET | TYPE_FILE | TYPE_FUNC | TYPE_LIST
  | TYPE_OPAQUE | TYPE_PATTERN | TYPE_TABLE | TYPE_RECORD | TYPE_VECTOR | TYPE_TYPE
  | TYPE_ANY

text \<open>A type object: its tag, and an identity that tells two types of one tag apart.\<close>

record Type =
  Tag :: TypeTag
  type_id :: nat

text \<open>
  Modelled from the spec: \<^verbatim>\<open>IsManagedType\<close> is declared in ZVal.h and defined outside
  src. The managed kinds are the heap-value kinds of the TypedValue cell: string,
  address, subnet, file, function, list, opaque, pattern, table, record, vector,
  type-descriptor and "any".
\<close>

definition IsManagedType :: "Type \<Rightarrow> bool" where
  "IsManagedType t \<longleftrightarrow>
     Tag t \<in> {TYPE_STRING, TYPE_ADDR, TYPE_SUBNET, TYPE_FILE, TYPE_FUNC, TYPE_LIST,
              TYPE_OPAQUE, TYPE_PATTERN, TYPE_TABLE, TYPE_RECORD, TYPE_VECTOR,
              TYPE_TYPE, TYPE_ANY}"

section \<open>ZAMValUnion\<close>

text \<open>
  The union has no tag: all its members share one 64-bit cell. \<open>managed_val\<close> is
  that cell read as an object pointer; the scalar members read the same bits.
\<close>

record ZAMValUnion =
  managed_val :: obj_ptr

definition int_val :: "ZAMValUnion \<Rightarrow> int" where
  "int_val z = sint (managed_val z)"

definition uint_val :: "ZAMValUnion \<Rightarrow> nat" where
  "uint_val z = unat (managed_val z)"

text \<open>\<^verbatim>\<open>ZAMValUnion() { managed_val = nullptr; }\<close>\<close>

definition ZAMValUnion_default :: ZAMValUnion where
  "ZAMValUnion_default = \<lparr>managed_val = nullptr\<rparr>"

text \<open>
  Modelled from the spec: \<^verbatim>\<open>ZAMValUnion::IsNil\<close> is declared in ZVal.h and defined
  outside src. "For managed types, true iff the stored reference equals the nil
  sentinel; undefined/unused for scalar types": outside the managed types there is no
  answer.
\<close>

definition IsNil :: "Type \<Rightarrow> ZAMValUnion \<Rightarrow> bool option" where
  "IsNil t z = (if IsManagedType t then Some (managed_val z = nullptr) else None)"

text \<open>\<^verbatim>\<open>inline void DeleteManagedType(ZAMValUnion& v) { Unref(v.managed_val); }\<close>\<close>

definition DeleteManagedType :: "ZAMValUnion \<Rightarrow> ref_cnts \<Rightarrow> ref_cnts" where
  "DeleteManagedType v h = Unref (managed_val v) h"

section \<open>ZAM_vector\<close>

text \<open>
  \<^verbatim>\<open>std::vector<ZAMValUnion>\<close> is a list. An element access \<^verbatim>\<open>zvec[n]\<close> outside
  the vector is undefined behaviour in C++; in the model it is the value \<open>None\<close>,
  and every operation that performs such an access returns \<open>None\<close>.
\<close>

type_synonym ZVU_vec = "ZAMValUnion list"

definition at :: "'a list \<Rightarrow> nat \<Rightarrow> 'a option" where
  "at xs i = (if i < length xs then Some (xs ! i) else None)"

text \<open>
  The fields of the class. \<open>vv\<close> is the bare back pointer to the owning VectorVal;
  an \<^verbatim>\<open>IntrusivePtr<Type>\<close> is a type or null.
\<close>

record ZAM_vector =
  zvec :: ZVU_vec
  vv :: obj_ptr
  managed_yt :: "Type option"
  general_yt :: "Type option"

text \<open>
  The mutating members act on the vector and on the reference counts, so the state of
  an operation is the pair of both.
\<close>

type_synonym vector_state = "ZAM_vector \<times> ref_cnts"

text \<open>
  The constructor: \<^verbatim>\<open>zvec(n)\<close> holds \<open>n\<close> default-constructed cells. \<open>n\<close> is an
  \<^verbatim>\<open>int\<close>; a negative one is no size.
\<close>

definition ZAM_vector_new :: "obj_ptr \<Rightarrow> Type option \<Rightarrow> int \<Rightarrow> ZAM_vector option" where
  "ZAM_vector_new vv' yt n =
     (if n < 0 then None
      else Some (case yt of
        Some t \<Rightarrow> \<lparr>zvec = replicate (nat n) ZAMValUnion_default, vv = vv',
                   managed_yt = (if IsManagedType t then Some t else None),
                   general_yt = Some t\<rparr>
      | None \<Rightarrow> \<lparr>zvec = replicate (nat n) ZAMValUnion_default, vv = vv',
                 managed_yt = None, general_yt = None\<rparr>))"

text \<open>
  \<^verbatim>\<open>SetYieldType\<close>. In the branch that stores the type, \<^verbatim>\<open>IsManagedType(yt)\<close> reads
  the tag of \<open>yt\<close>, which a null \<open>yt\<close> does not have.
\<close>

definition SetYieldType :: "Type option \<Rightarrow> ZAM_vector \<Rightarrow> ZAM_vector option" where
  "SetYieldType yt v =
     (if general_yt v = None \<or> map_option Tag (general_yt v) = Some TYPE_ANY \<or>
         map_option Tag (general_yt v) = Some TYPE_VOID
      then (case yt of
              None \<Rightarrow> None
            | Some t \<Rightarrow> Some (v\<lparr>managed_yt := (if IsManagedType t then Some t else None),
                                 general_yt := Some t\<rparr>))
      else Some v)"

text \<open>A run of \<^verbatim>\<open>SetYieldType\<close> calls, one after the other.\<close>

fun SetYieldTypes :: "Type option list \<Rightarrow> ZAM_vector \<Rightarrow> ZAM_vector option" where
  "SetYieldTypes [] v = Some v"
| "SetYieldTypes (yt # yts) v =
     (case SetYieldType yt v of None \<Rightarrow> None | Some v' \<Rightarrow> SetYieldTypes yts v')"

definition IsManagedYieldType :: "ZAM_vector \<Rightarrow> bool" where
  "IsManagedYieldType v \<longleftrightarrow> managed_yt v \<noteq> None"

definition Size :: "ZAM_vector \<Rightarrow> nat" where
  "Size v = length (zvec v)"

text \<open>
  Modelled from the spec: \<^verbatim>\<open>GrowVector(int size)\<close> is declared in ZVal.h and defined
  outside src. "Growing the container zero-fills new slots (their TypedValue meaning
  absent for a managed type)": the vector is extended to \<open>new_size\<close> elements, the new
  ones being the nil cell. Growing never removes an element, and there is nothing to
  add for a size that is not above the current one (a negative one included).
\<close>

definition GrowVector :: "int \<Rightarrow> ZAM_vector \<Rightarrow> ZAM_vector" where
  "GrowVector new_size v =
     v\<lparr>zvec := zvec v @ replicate (nat new_size - length (zvec v)) ZAMValUnion_default\<rparr>"

text \<open>
  \<^verbatim>\<open>SetElement(unsigned int n, ZAMValUnion& v)\<close>. \<open>n + 1\<close> is computed in
  \<^verbatim>\<open>unsigned int\<close> (it wraps) and passed to the \<^verbatim>\<open>int\<close> parameter of GrowVector.
\<close>

definition SetElement :: "32 word \<Rightarrow> ZAMValUnion \<Rightarrow> vector_state \<Rightarrow> vector_state option" where
  "SetElement n x s =
     (let (v, h) = s;
          v1 = (if length (zvec v) \<le> unat n then GrowVector (sint (n + 1)) v else v)
      in case at (zvec v1) (unat n) of
           None \<Rightarrow> None
         | Some old \<Rightarrow>
             Some (v1\<lparr>zvec := (zvec v1)[unat n := x]\<rparr>,
                   if managed_yt v1 \<noteq> None then DeleteManagedType old h else h))"

text \<open>
  \<^verbatim>\<open>DeleteIfManaged(int n)\<close>: the index is an \<^verbatim>\<open>int\<close>; a negative one converts to
  an index far outside the vector.
\<close>

definition DeleteIfManaged :: "int \<Rightarrow> vector_state \<Rightarrow> vector_state option" where
  "DeleteIfManaged n s =
     (let (v, h) = s in
      if managed_yt v \<noteq> None
      then (if n < 0 then None
            else case at (zvec v) (nat n) of
                   None \<Rightarrow> None
                 | Some e \<Rightarrow> Some (v, DeleteManagedType e h))
      else Some s)"

text \<open>
  \<^verbatim>\<open>Insert\<close>: \<^verbatim>\<open>std::vector::insert\<close> puts the element before the iterator and
  moves the elements from there on one place up; none of them leaves the vector.
\<close>

definition Insert :: "32 word \<Rightarrow> ZAMValUnion \<Rightarrow> vector_state \<Rightarrow> vector_state option" where
  "Insert index element s =
     (if unat index < length (zvec (fst s))
      then (case (if managed_yt (fst s) \<noteq> None then DeleteIfManaged (sint index) s
                  else Some s) of
              None \<Rightarrow> None
            | Some (v, h) \<Rightarrow>
                Some (v\<lparr>zvec := take (unat index) (zvec v) @ element # drop (unat index) (zvec v)\<rparr>, h))
      else (let (v, h) = s in Some (v\<lparr>zvec := zvec v @ [element]\<rparr>, h)))"

text \<open>
  \<^verbatim>\<open>Remove\<close>: \<^verbatim>\<open>std::vector::erase\<close> needs an iterator to an element of the
  vector.
\<close>

definition Remove :: "32 word \<Rightarrow> vector_state \<Rightarrow> vector_state option" where
  "Remove index s =
     (case (if managed_yt (fst s) \<noteq> None then DeleteIfManaged (sint index) s
            else Some s) of
        None \<Rightarrow> None
      | Some (v, h) \<Rightarrow>
          if unat index < length (zvec v)
          then Some (v\<lparr>zvec := take (unat index) (zvec v) @ drop (Suc (unat index)) (zvec v)\<rparr>, h)
          else None)"

text \<open>
  \<^verbatim>\<open>Resize\<close> is \<^verbatim>\<open>zvec.resize(new_num_elements)\<close> and nothing else: the vector is
  cut, or extended by default-constructed cells.
\<close>

definition Resize :: "32 word \<Rightarrow> vector_state \<Rightarrow> vector_state" where
  "Resize new_num_elements s =
     (let (v, h) = s in
      (v\<lparr>zvec := take (unat new_num_elements) (zvec v) @
                  replicate (unat new_num_elements - length (zvec v)) ZAMValUnion_default\<rparr>,
       h))"

text \<open>
  What releasing the cells of a list, each once, does to a reference count. The
  specification's reading of a release of evicted elements is measured against it.
\<close>

fun release_all :: "ZVU_vec \<Rightarrow> ref_cnts \<Rightarrow> ref_cnts" where
  "release_all [] h = h"
| "release_all (z # zs) h = release_all zs (DeleteManagedType z h)"

section \<open>Conversion from and to dynamically-typed values\<close>

text \<open>
  A dynamically-typed value is a scalar, or an object on the heap; an
  \<^verbatim>\<open>IntrusivePtr<Val>\<close> is such a value or null.
\<close>

datatype Val = ScalarVal "64 word" | ManagedVal obj_ptr

text \<open>
  Modelled from the spec: the constructor \<^verbatim>\<open>ZAMValUnion(v, t)\<close> is declared in
  ZVal.h and defined outside src. "Given a dynamically-typed value and its static type,
  produces the matching TypedValue (scalar extraction for scalar types, reference
  acquisition for managed types). Fails silently into the nil sentinel only for a null
  input value of a managed type". A value that does not have the given type is a
  type misinterpretation, which this layer leaves undefined: \<open>None\<close>.
\<close>

definition ZAMValUnion_from_val ::
    "Val option \<Rightarrow> Type \<Rightarrow> ref_cnts \<Rightarrow> (ZAMValUnion \<times> ref_cnts) option" where
  "ZAMValUnion_from_val v t h =
     (if IsManagedType t
      then (case v of
              None \<Rightarrow> Some (ZAMValUnion_default, h)
            | Some (ManagedVal p) \<Rightarrow>
                if p = nullptr then None else Some (\<lparr>managed_val = p\<rparr>, Ref p h)
            | Some (ScalarVal w) \<Rightarrow> None)
      else (case v of
              Some (ScalarVal w) \<Rightarrow> Some (\<lparr>managed_val = w\<rparr>, h)
            | _ \<Rightarrow> None))"

text \<open>
  Modelled from the spec: \<^verbatim>\<open>ZAMValUnion::ToVal\<close> is declared in ZVal.h and defined
  outside src. "For scalars, wraps the scalar into a dynamically-typed value of the
  given type; for managed types, returns a new reference to the held value
  (incrementing its share count) or a representation of no value if nil".
\<close>

definition ToVal :: "Type \<Rightarrow> ZAMValUnion \<Rightarrow> ref_cnts \<Rightarrow> Val option \<times> ref_cnts" where
  "ToVal t z h =
     (if IsManagedType t
      then (if managed_val z = nullptr then (None, h)
            else (Some (ManagedVal (managed_val z)), Ref (managed_val z) h))
      else (Some (ScalarVal (managed_val z)), h))"

section \<open>ZAM_record\<close>

text \<open>
  Modelled from the spec: the record type descriptor (Type.h) is not under src. It
  answers the field types, and holds for each field the default value of the type for
  that field where there is one, materialised as a cell.
\<close>

record RecordType =
  field_types :: "Type list"
  field_defaults :: "ZAMValUnion option list"

text \<open>
  The fields of the class (its \<^verbatim>\<open>zvec\<close> is \<open>rzvec\<close> here). \<open>is_managed\<close> is a
  reference to a bitmap the type owns; \<^verbatim>\<open>std::vector<bool>\<close> is a list of
  booleans, and reading or writing it outside its size is undefined as for \<open>zvec\<close>.
\<close>

record ZAM_record =
  rzvec :: ZVU_vec
  rv :: obj_ptr
  rt :: RecordType
  is_in_record :: "bool list"
  is_managed :: "bool list"

type_synonym record_state = "ZAM_record \<times> ref_cnts"

text \<open>
  Modelled from the spec: the constructor of \<^verbatim>\<open>ZAM_record\<close> is declared in ZVal.h
  and defined outside src. The container is "created with a type descriptor (which
  fixes field count and manage bitmap)"; an optional field is absent until it is
  assigned, and a fresh cell is the nil cell.
\<close>

definition ZAM_record_new :: "obj_ptr \<Rightarrow> RecordType \<Rightarrow> ZAM_record" where
  "ZAM_record_new v' rt' =
     \<lparr>rzvec = replicate (length (field_types rt')) ZAMValUnion_default,
      rv = v',
      rt = rt',
      is_in_record = replicate (length (field_types rt')) False,
      is_managed = map IsManagedType (field_types rt')\<rparr>"

definition IsInRecord :: "32 word \<Rightarrow> ZAM_record \<Rightarrow> bool option" where
  "IsInRecord offset r = at (is_in_record r) (unat offset)"

definition IsManaged :: "32 word \<Rightarrow> ZAM_record \<Rightarrow> bool option" where
  "IsManaged offset r = at (is_managed r) (unat offset)"


text \<open>
  \<^verbatim>\<open>Assign\<close>. \<^verbatim>\<open>&&\<close> evaluates \<^verbatim>\<open>IsManaged(field)\<close> only when the field is in
  the record.
\<close>

definition Assign :: "32 word \<Rightarrow> ZAMValUnion \<Rightarrow> record_state \<Rightarrow> record_state option" where
  "Assign field v s =
     (let (r, h) = s in
      do {
        inrec \<leftarrow> IsInRecord field r;
        man \<leftarrow> (if inrec then IsManaged field r else Some False);
        old \<leftarrow> at (rzvec r) (unat field);
        Some (r\<lparr>rzvec := (rzvec r)[unat field := v],
                is_in_record := (is_in_record r)[unat field := True]\<rparr>,
              if inrec \<and> man then Unref (managed_val old) h else h)
      })"

text \<open>\<^verbatim>\<open>SetField\<close>: marks the field and hands out its cell; no memory management.\<close>

definition SetField :: "32 word \<Rightarrow> ZAM_record \<Rightarrow> (ZAMValUnion \<times> ZAM_record) option" where
  "SetField field r =
     do {
       _ \<leftarrow> IsInRecord field r;
       z \<leftarrow> at (rzvec r) (unat field);
       Some (z, r\<lparr>is_in_record := (is_in_record r)[unat field := True]\<rparr>)
     }"

text \<open>
  \<^verbatim>\<open>RefField\<close>: \<^verbatim>\<open>Ref\<close> of the pointer in the cell, unchecked. A null pointer
  has no object whose count could go up.
\<close>

definition RefField :: "32 word \<Rightarrow> record_state \<Rightarrow> record_state option" where
  "RefField field s =
     (let (r, h) = s in
      do {
        z \<leftarrow> at (rzvec r) (unat field);
        if managed_val z = nullptr then None else Some (r, Ref (managed_val z) h)
      })"

text \<open>
  \<^verbatim>\<open>DeleteField\<close>: the cell keeps its bits; only the presence bit is cleared.
\<close>

definition DeleteField :: "32 word \<Rightarrow> record_state \<Rightarrow> record_state option" where
  "DeleteField field s =
     (let (r, h) = s in
      do {
        inrec \<leftarrow> IsInRecord field r;
        man \<leftarrow> (if inrec then IsManaged field r else Some False);
        h' \<leftarrow> (if inrec \<and> man
               then map_option (\<lambda>old. Unref (managed_val old) h) (at (rzvec r) (unat field))
               else Some h);
        Some (r\<lparr>is_in_record := (is_in_record r)[unat field := False]\<rparr>, h')
      })"

text \<open>
  Modelled from the spec: \<^verbatim>\<open>SetToDefault\<close> is declared in ZVal.h and defined outside
  src. It "attempts to materialize the type's default value for that field and store
  it"; the answer is whether there was a default. \<open>default_value\<close> is the
  materialised default of a field of the type, if the type has one for it.
\<close>

definition default_value :: "RecordType \<Rightarrow> 32 word \<Rightarrow> ZAMValUnion option" where
  "default_value t field =
     (case at (field_defaults t) (unat field) of Some d \<Rightarrow> d | None \<Rightarrow> None)"

definition SetToDefault :: "32 word \<Rightarrow> ZAM_record \<Rightarrow> bool \<times> ZAM_record" where
  "SetToDefault field r =
     (case default_value (rt r) field of
        Some d \<Rightarrow> (True, r\<lparr>rzvec := (rzvec r)[unat field := d]\<rparr>)
      | None \<Rightarrow> (False, r))"

text \<open>
  \<^verbatim>\<open>Lookup(field, error)\<close>: the result is the cell, the error flag and the record
  after the call. \<^verbatim>\<open>&&\<close> calls \<^verbatim>\<open>SetToDefault\<close> only for a field that is not in
  the record.
\<close>

definition Lookup :: "32 word \<Rightarrow> ZAM_record \<Rightarrow> (ZAMValUnion \<times> bool \<times> ZAM_record) option" where
  "Lookup field r =
     do {
       inrec \<leftarrow> IsInRecord field r;
       let (error, r') = (if inrec then (False, r)
                          else (let (ok, r1) = SetToDefault field r in (\<not> ok, r1)));
       z \<leftarrow> at (rzvec r') (unat field);
       Some (z, error, r')
     }"

text \<open>
  \<^verbatim>\<open>FieldType(int field)\<close> asks the type descriptor. Modelled from the spec:
  \<^verbatim>\<open>GetFieldType\<close> (Type.h) is not under src; the descriptor answers the types of
  the fields it has.
\<close>

definition FieldType :: "int \<Rightarrow> ZAM_record \<Rightarrow> Type option" where
  "FieldType field r = (if field < 0 then None else at (field_types (rt r)) (nat field))"

text \<open>
  \<^verbatim>\<open>NthField\<close>: a Lookup, then the copy of the cell as a value of the field's type;
  null on error.
\<close>

definition NthField :: "32 word \<Rightarrow> record_state \<Rightarrow> (Val option \<times> record_state) option" where
  "NthField field s =
     (let (r, h) = s in
      do {
        (f, error, r') \<leftarrow> Lookup field r;
        if error then Some (None, (r', h))
        else do {
          t \<leftarrow> FieldType (sint field) r';
          let (v, h') = ToVal t f h;
          Some (v, (r', h'))
        }
      })"

text \<open>The field is one of the record: each of the three vectors has it.\<close>

definition valid_field :: "32 word \<Rightarrow> ZAM_record \<Rightarrow> bool" where
  "valid_field field r \<longleftrightarrow>
     unat field < length (rzvec r) \<and> unat field < length (is_in_record r) \<and>
     unat field < length (is_managed r)"

text \<open>
  Calls of the public members of the class that act on the record or on the reference
  counts, with what each call does to the state, and a run of such calls in order.
\<close>

datatype record_op =
    OpAssign "32 word" ZAMValUnion
  | OpSetField "32 word"
  | OpRefField "32 word"
  | OpLookup "32 word"
  | OpNthField "32 word"
  | OpDeleteField "32 word"

fun apply_op :: "record_op \<Rightarrow> record_state \<Rightarrow> record_state option" where
  "apply_op (OpAssign f v) s = Assign f v s"
| "apply_op (OpSetField f) s = map_option (\<lambda>(z, r'). (r', snd s)) (SetField f (fst s))"
| "apply_op (OpRefField f) s = RefField f s"
| "apply_op (OpLookup f) s = map_option (\<lambda>(z, error, r'). (r', snd s)) (Lookup f (fst s))"
| "apply_op (OpNthField f) s = map_option snd (NthField f s)"
| "apply_op (OpDeleteField f) s = DeleteField f s"

fun run_ops :: "record_op list \<Rightarrow> record_state \<Rightarrow> record_state option" where
  "run_ops [] s = Some s"
| "run_ops (x # xs) s = (case apply_op x s of None \<Rightarrow> None | Some s' \<Rightarrow> run_ops xs s')"


section \<open>Statements\<close>

text \<open>
  Statement nodes live on a heap and point to each other: a \<^verbatim>\<open>Stmt*\<close> is an
  address or null, and the heap gives the node at each address.
\<close>

type_synonym stmt_ptr = nat

record Stmt =
  original :: "stmt_ptr option"
  tag :: nat
  breakpoint_count :: int

type_synonym stmt_heap = "stmt_ptr \<Rightarrow> Stmt"

text \<open>
  \<^verbatim>\<open>Original()\<close> calls itself along the links. On links that run in a circle the call
  never returns, which is the value \<open>None\<close>.
\<close>

partial_function (option) Original :: "stmt_heap \<Rightarrow> stmt_ptr \<Rightarrow> stmt_ptr option" where
  "Original H this =
     (case original (H this) of
        Some orig \<Rightarrow> Original H orig
      | None \<Rightarrow> Some this)"

text \<open>\<^verbatim>\<open>SetOriginal\<close> sets the link once.\<close>

definition SetOriginal :: "stmt_ptr \<Rightarrow> stmt_ptr \<Rightarrow> stmt_heap \<Rightarrow> stmt_heap" where
  "SetOriginal this orig H =
     (if original (H this) = None then H(this := (H this)\<lparr>original := Some orig\<rparr>) else H)"

text \<open>
  The specification's words: the chain of original links from a node ends in a root, a
  node without a link.
\<close>

inductive root_of :: "stmt_heap \<Rightarrow> stmt_ptr \<Rightarrow> stmt_ptr \<Rightarrow> bool" where
  root: "original (H s) = None \<Longrightarrow> root_of H s s"
| link: "original (H s) = Some orig \<Longrightarrow> root_of H orig r \<Longrightarrow> root_of H s r"

section \<open>Script analysis\<close>

text \<open>The analysis options, with the defaults of the struct.\<close>

record AnalyOpt =
  activate :: bool
  only_func :: "string option"
  report_profile :: bool
  usage_issues :: int
  find_deep_uninits :: bool
  min_rd_trace :: bool
  max_rd_trace :: bool
  ud_dump :: bool
  inliner :: bool
  report_recursive :: bool
  optimize :: bool
  compile :: bool
  no_ZAM_opt :: bool
  dump_code :: bool
  dump_xform :: bool
  no_load :: bool
  no_save :: bool
  delete_save_files :: bool
  overwrite_save_files :: bool

definition analysis_options :: AnalyOpt where
  "analysis_options =
     \<lparr>activate = False, only_func = None, report_profile = False, usage_issues = 0,
      find_deep_uninits = False, min_rd_trace = False, max_rd_trace = False,
      ud_dump = False, inliner = False, report_recursive = False, optimize = False,
      compile = False, no_ZAM_opt = False, dump_code = False, dump_xform = False,
      no_load = False, no_save = False, delete_save_files = False,
      overwrite_save_files = False\<rparr>"

type_synonym func_ptr = nat

text \<open>
  Modelled from the spec: \<^verbatim>\<open>non_recursive_funcs\<close> is declared \<^verbatim>\<open>extern\<close> in
  ScriptAnaly.h; its definition and the analysis that fills it are outside src. The set
  starts empty. The recursion analysis "is driven by inlining": \<^verbatim>\<open>analyze_scripts\<close>
  runs whole-program inlining if it is enabled in an activated pipeline, and only then
  are the functions proven not to be recursive (whatever the analysis, a parameter
  here, finds) added to the set. A function reports as possibly recursive when it is
  absent from the set.
\<close>

definition non_recursive_funcs :: "func_ptr set" where
  "non_recursive_funcs = {}"

definition analyze_scripts ::
    "AnalyOpt \<Rightarrow> (func_ptr list \<Rightarrow> func_ptr set) \<Rightarrow> func_ptr list \<Rightarrow> func_ptr set \<Rightarrow> func_ptr set" where
  "analyze_scripts opts proven_non_recursive funcs nrf =
     (if activate opts \<and> inliner opts then nrf \<union> proven_non_recursive funcs else nrf)"

definition possibly_recursive :: "func_ptr set \<Rightarrow> func_ptr \<Rightarrow> bool" where
  "possibly_recursive nrf f \<longleftrightarrow> f \<notin> nrf"

section \<open>Example data\<close>

text \<open>
  Concrete states on which the operations are run: every object has reference count
  one; a vector of two strings, the objects at addresses 10 and 20; and a record of
  type \<^verbatim>\<open>{a: string (optional), b: count with a default}\<close>.
\<close>

definition one_each :: ref_cnts where
  "one_each = (\<lambda>_. 1)"

definition string_type :: Type where
  "string_type = \<lparr>Tag = TYPE_STRING, type_id = 0\<rparr>"

definition count_type :: Type where
  "count_type = \<lparr>Tag = TYPE_COUNT, type_id = 1\<rparr>"

definition two_strings :: ZAM_vector where
  "two_strings =
     \<lparr>zvec = [\<lparr>managed_val = 10\<rparr>, \<lparr>managed_val = 20\<rparr>], vv = 7,
      managed_yt = Some string_type, general_yt = Some string_type\<rparr>"

definition ab_type :: RecordType where
  "ab_type =
     \<lparr>field_types = [string_type, count_type],
      field_defaults = [None, Some \<lparr>managed_val = 42\<rparr>]\<rparr>"

definition ab_record :: ZAM_record where
  "ab_record = ZAM_record_new 8 ab_type"


text \<open>Three statements: 2 was reduced from 1, and 1 from 0.\<close>

definition three_stmts :: stmt_heap where
  "three_stmts =
     (\<lambda>s. \<lparr>original = (if s = 1 then Some 0 else if s = 2 then Some 1 else None),
            tag = 0, breakpoint_count = 0\<rparr>)"

section \<open>Reference counts: basic facts\<close>

lemma Unref_nullptr: "Unref nullptr h = h"
  by (simp add: Unref_def)

lemma Unref_count:
  "Unref p h q = h q - (if q = p \<and> p \<noteq> nullptr then 1 else 0)"
  by (simp add: Unref_def)

section \<open>The default cell\<close>

text \<open>
  Claim C10. A default-constructed ZAMValUnion holds the null managed pointer: for every
  managed type \<open>t\<close> it is nil under \<open>t\<close>, and releasing it with DeleteManagedType
  changes no reference count.
\<close>

theorem default_cell_is_nil:
  "IsManagedType t \<Longrightarrow>
     managed_val ZAMValUnion_default = nullptr \<and>
     IsNil t ZAMValUnion_default = Some True \<and>
     DeleteManagedType ZAMValUnion_default h = h"
  by (simp add: ZAMValUnion_default_def IsNil_def DeleteManagedType_def Unref_def)

theorem default_cell_is_nil_witness:
  "IsManagedType \<lparr>Tag = TYPE_STRING, type_id = 0\<rparr> \<and>
   managed_val ZAMValUnion_default = nullptr \<and>
   IsNil \<lparr>Tag = TYPE_STRING, type_id = 0\<rparr> ZAMValUnion_default = Some True \<and>
   DeleteManagedType ZAMValUnion_default (\<lambda>_. 1) = (\<lambda>_. 1)"
proof -
  have m: "IsManagedType \<lparr>Tag = TYPE_STRING, type_id = 0\<rparr>"
    by (simp add: IsManagedType_def)
  from default_cell_is_nil [OF m, of "\<lambda>_. 1"] m show ?thesis by simp
qed

section \<open>The yield type of a vector\<close>

lemma SetYieldType_concrete:
  "general_yt v = Some t \<Longrightarrow> Tag t \<noteq> TYPE_ANY \<Longrightarrow> Tag t \<noteq> TYPE_VOID \<Longrightarrow>
   SetYieldType yt v = Some v"
  by (simp add: SetYieldType_def)

text \<open>The yield type is stored when the current one is null, "any" or "void".\<close>

lemma SetYieldType_unknown:
  assumes "general_yt v = None \<or> map_option Tag (general_yt v) = Some TYPE_ANY \<or>
     map_option Tag (general_yt v) = Some TYPE_VOID"
  shows "SetYieldType (Some t) v =
     Some (v\<lparr>managed_yt := (if IsManagedType t then Some t else None), general_yt := Some t\<rparr>)"
  using assms by (auto simp: SetYieldType_def)

text \<open>A call that changes the vector found a null, "any" or "void" yield type.\<close>

lemma SetYieldType_changes_only_unknown:
  assumes "SetYieldType yt v = Some v'" and "v' \<noteq> v"
  shows "general_yt v = None \<or> map_option Tag (general_yt v) = Some TYPE_ANY \<or>
     map_option Tag (general_yt v) = Some TYPE_VOID"
  using assms by (auto simp: SetYieldType_def split: if_splits)

text \<open>
  Claim C5. Once the yield type of a vector is a concrete one (its tag is neither "any"
  nor "void"), a call of SetYieldType, and so every run of such calls, with whatever
  arguments, returns the vector as it was: the general and the managed yield type stay
  the same. The stored type changes only from null, "any" or "void".
\<close>

theorem SetYieldType_fixed:
  assumes "general_yt v = Some t" and "Tag t \<noteq> TYPE_ANY" and "Tag t \<noteq> TYPE_VOID"
  shows "SetYieldType yt v = Some v \<and> SetYieldTypes yts v = Some v"
proof
  show "SetYieldType yt v = Some v" using assms by (rule SetYieldType_concrete)
  show "SetYieldTypes yts v = Some v"
    by (induction yts) (simp_all add: SetYieldType_concrete [OF assms])
qed

theorem SetYieldType_fixed_witness:
  "general_yt \<lparr>zvec = [], vv = 7, managed_yt = None,
               general_yt = Some \<lparr>Tag = TYPE_COUNT, type_id = 0\<rparr>\<rparr>
     = Some \<lparr>Tag = TYPE_COUNT, type_id = 0\<rparr> \<and>
   Tag \<lparr>Tag = TYPE_COUNT, type_id = 0\<rparr> \<noteq> TYPE_ANY \<and>
   Tag \<lparr>Tag = TYPE_COUNT, type_id = 0\<rparr> \<noteq> TYPE_VOID \<and>
   SetYieldType (Some \<lparr>Tag = TYPE_STRING, type_id = 1\<rparr>)
     \<lparr>zvec = [], vv = 7, managed_yt = None, general_yt = Some \<lparr>Tag = TYPE_COUNT, type_id = 0\<rparr>\<rparr>
   = Some \<lparr>zvec = [], vv = 7, managed_yt = None, general_yt = Some \<lparr>Tag = TYPE_COUNT, type_id = 0\<rparr>\<rparr> \<and>
   SetYieldTypes [Some \<lparr>Tag = TYPE_STRING, type_id = 1\<rparr>, None, Some \<lparr>Tag = TYPE_ANY, type_id = 2\<rparr>]
     \<lparr>zvec = [], vv = 7, managed_yt = None, general_yt = Some \<lparr>Tag = TYPE_COUNT, type_id = 0\<rparr>\<rparr>
   = Some \<lparr>zvec = [], vv = 7, managed_yt = None, general_yt = Some \<lparr>Tag = TYPE_COUNT, type_id = 0\<rparr>\<rparr>"
proof -
  have a: "general_yt \<lparr>zvec = [], vv = 7, managed_yt = None,
               general_yt = Some \<lparr>Tag = TYPE_COUNT, type_id = 0\<rparr>\<rparr>
     = Some \<lparr>Tag = TYPE_COUNT, type_id = 0\<rparr>" by simp
  have b: "Tag \<lparr>Tag = TYPE_COUNT, type_id = 0\<rparr> \<noteq> TYPE_ANY" by simp
  have c: "Tag \<lparr>Tag = TYPE_COUNT, type_id = 0\<rparr> \<noteq> TYPE_VOID" by simp
  from SetYieldType_fixed [OF a b c] a b c show ?thesis by blast
qed

section \<open>Recursion tracking\<close>

text \<open>
  Claim C8. When inlining is off, the recursion analysis does not run: the set of
  functions known not to be recursive is still empty after analyze_scripts, and every
  function reports as possibly recursive.
\<close>

theorem no_analysis_all_possibly_recursive:
  assumes "\<not> inliner opts"
  shows "analyze_scripts opts proven funcs non_recursive_funcs = {} \<and>
         (\<forall>f. possibly_recursive (analyze_scripts opts proven funcs non_recursive_funcs) f)"
  using assms by (simp add: analyze_scripts_def non_recursive_funcs_def possibly_recursive_def)

theorem no_analysis_all_possibly_recursive_witness:
  "\<not> inliner analysis_options \<and>
   analyze_scripts analysis_options (\<lambda>fs. set fs) [1, 2] non_recursive_funcs = {} \<and>
   (\<forall>f. possibly_recursive (analyze_scripts analysis_options (\<lambda>fs. set fs) [1, 2] non_recursive_funcs) f)"
proof -
  have n: "\<not> inliner analysis_options" by (simp add: analysis_options_def)
  from no_analysis_all_possibly_recursive [OF n, of "\<lambda>fs. set fs" "[1, 2]"] n
  show ?thesis by blast
qed

section \<open>Round trip through a cell\<close>

text \<open>
  Claim C9. For a managed type \<open>t\<close> and a value that is the object at a non-null
  address \<open>p\<close>: constructing a cell from the value and converting the cell back gives
  the value again. The construction and the conversion acquire one reference each, so
  the count of \<open>p\<close> is up by two; releasing the cell and the returned reference brings
  every reference count back to what it was.
\<close>

theorem round_trip_managed:
  assumes "IsManagedType t" and "p \<noteq> nullptr"
  shows "ZAMValUnion_from_val (Some (ManagedVal p)) t h = Some (\<lparr>managed_val = p\<rparr>, Ref p h) \<and>
         ToVal t \<lparr>managed_val = p\<rparr> (Ref p h) = (Some (ManagedVal p), Ref p (Ref p h)) \<and>
         Ref p (Ref p h) p = h p + 2 \<and>
         Unref p (DeleteManagedType \<lparr>managed_val = p\<rparr> (Ref p (Ref p h))) = h"
proof -
  have "Unref p (DeleteManagedType \<lparr>managed_val = p\<rparr> (Ref p (Ref p h))) = h"
    using assms(2) by (simp add: Ref_def Unref_def DeleteManagedType_def fun_eq_iff)
  moreover have "Ref p (Ref p h) p = h p + 2"
    by (simp add: Ref_def)
  ultimately show ?thesis
    using assms by (simp add: ZAMValUnion_from_val_def ToVal_def)
qed

theorem round_trip_managed_witness:
  "IsManagedType \<lparr>Tag = TYPE_TABLE, type_id = 3\<rparr> \<and> (5 :: obj_ptr) \<noteq> nullptr \<and>
   ZAMValUnion_from_val (Some (ManagedVal 5)) \<lparr>Tag = TYPE_TABLE, type_id = 3\<rparr> (\<lambda>_. 1)
     = Some (\<lparr>managed_val = 5\<rparr>, Ref 5 (\<lambda>_. 1)) \<and>
   ToVal \<lparr>Tag = TYPE_TABLE, type_id = 3\<rparr> \<lparr>managed_val = 5\<rparr> (Ref 5 (\<lambda>_. 1))
     = (Some (ManagedVal 5), Ref 5 (Ref 5 (\<lambda>_. 1))) \<and>
   Ref 5 (Ref 5 (\<lambda>_. 1)) 5 = 1 + 2 \<and>
   Unref 5 (DeleteManagedType \<lparr>managed_val = 5\<rparr> (Ref 5 (Ref 5 (\<lambda>_. 1)))) = (\<lambda>_. 1)"
proof -
  have m: "IsManagedType \<lparr>Tag = TYPE_TABLE, type_id = 3\<rparr>" by (simp add: IsManagedType_def)
  have n: "(5 :: obj_ptr) \<noteq> nullptr" by (simp add: nullptr_def)
  from round_trip_managed [OF m n, of "\<lambda>_. 1"] m n show ?thesis by blast
qed

section \<open>Index arithmetic\<close>

text \<open>
  An \<^verbatim>\<open>unsigned int\<close> below \<open>2 ^ 31\<close> converts to the \<^verbatim>\<open>int\<close> of the same
  value, and so does its successor when that is still below \<open>2 ^ 31\<close>.
\<close>

lemma signed_take_bit_31_nat:
  fixes n :: nat
  assumes "n < 2 ^ 31"
  shows "signed_take_bit 31 (int n) = int n"
proof (rule signed_take_bit_int_eq_self)
  show "- (2 ^ 31) \<le> int n" by simp
  have "int n < int (2 ^ 31)" using assms by (simp only: of_nat_less_iff)
  then show "int n < 2 ^ 31" by simp
qed

lemma sint_small:
  fixes k :: "32 word"
  assumes "unat k < 2 ^ 31"
  shows "sint k = int (unat k)"
proof -
  have "sint k = signed_take_bit (LENGTH(32) - Suc 0) (uint k)"
    by (rule sint_uint)
  also have "\<dots> = signed_take_bit 31 (uint k)"
    by simp
  also have "uint k = int (unat k)"
    by (rule uint_nat)
  also have "signed_take_bit 31 (int (unat k)) = int (unat k)"
    using assms by (rule signed_take_bit_31_nat)
  finally show ?thesis .
qed

lemma signed_take_bit_31_small:
  fixes n :: nat
  assumes "n + 1 < 2 ^ 31"
  shows "signed_take_bit 31 (int n + 1) = int n + 1"
proof (rule signed_take_bit_int_eq_self)
  show "- (2 ^ 31) \<le> int n + 1" by simp
  have "int (n + 1) < int (2 ^ 31)" using assms by (simp only: of_nat_less_iff)
  then show "int n + 1 < 2 ^ 31" by simp
qed

lemma sint_succ_small:
  fixes k :: "32 word"
  assumes "unat k + 1 < 2 ^ 31"
  shows "sint (k + 1) = int (unat k) + 1"
proof -
  have "unat k + unat (1 :: 32 word) < 2 ^ LENGTH(32)"
    using assms by simp
  then have u: "unat (k + 1) = unat k + 1"
    by (simp add: unat_add_lem [THEN iffD1])
  have "sint (k + 1) = signed_take_bit (LENGTH(32) - Suc 0) (uint (k + 1))"
    by (rule sint_uint)
  also have "\<dots> = signed_take_bit 31 (uint (k + 1))"
    by simp
  also have "uint (k + 1) = int (unat (k + 1))"
    by (rule uint_nat)
  also have "int (unat (k + 1)) = int (unat k) + 1"
    by (simp only: u of_nat_add of_nat_1)
  also have "signed_take_bit 31 (int (unat k) + 1) = int (unat k) + 1"
    using assms by (rule signed_take_bit_31_small)
  finally show ?thesis .
qed

lemma at_Some: "i < length xs \<Longrightarrow> at xs i = Some (xs ! i)"
  by (simp add: at_def)

lemma at_None: "length xs \<le> i \<Longrightarrow> at xs i = None"
  by (simp add: at_def)

section \<open>SetElement\<close>

lemma SetElement_in_range:
  assumes "unat k < length (zvec v)"
  shows "SetElement k x (v, h) =
           Some (v\<lparr>zvec := (zvec v)[unat k := x]\<rparr>,
                 if managed_yt v \<noteq> None then Unref (managed_val (zvec v ! unat k)) h else h)"
  using assms by (simp add: SetElement_def at_def DeleteManagedType_def)

lemma SetElement_grow:
  assumes "length (zvec v) \<le> unat k" and "unat k + 1 < 2 ^ 31"
  shows "SetElement k x (v, h) =
           Some (v\<lparr>zvec := zvec v @ replicate (unat k - length (zvec v)) ZAMValUnion_default @ [x]\<rparr>, h)"
proof -
  let ?n = "length (zvec v)"
  let ?g = "zvec v @ replicate (Suc (unat k) - ?n) ZAMValUnion_default"
  have g: "GrowVector (sint (k + 1)) v = v\<lparr>zvec := ?g\<rparr>"
    using assms by (simp add: GrowVector_def sint_succ_small nat_add_distrib)
  have len: "length ?g = Suc (unat k)" using assms(1) by simp
  have old: "?g ! unat k = ZAMValUnion_default"
    using assms(1) by (simp add: nth_append)
  have upd: "?g[unat k := x] = zvec v @ replicate (unat k - ?n) ZAMValUnion_default @ [x]"
  proof -
    have "Suc (unat k) - ?n = Suc (unat k - ?n)" using assms(1) by simp
    then have "?g = (zvec v @ replicate (unat k - ?n) ZAMValUnion_default) @ [ZAMValUnion_default]"
      by (simp add: replicate_append_same)
    moreover have "length (zvec v @ replicate (unat k - ?n) ZAMValUnion_default) = unat k"
      using assms(1) by simp
    ultimately show ?thesis
      by (metis append.assoc list_update_length append_Nil)
  qed
  show ?thesis
    using assms(1) len old upd
    by (simp add: SetElement_def g at_def DeleteManagedType_def ZAMValUnion_default_def Unref_def)
qed

lemma SetElement_grows_example:
  "SetElement 3 \<lparr>managed_val = 30\<rparr> (two_strings, one_each) =
     Some (two_strings\<lparr>zvec := [\<lparr>managed_val = 10\<rparr>, \<lparr>managed_val = 20\<rparr>,
             ZAMValUnion_default, \<lparr>managed_val = 30\<rparr>]\<rparr>, one_each)"
proof -
  have a: "length (zvec two_strings) \<le> unat (3 :: 32 word)" by (simp add: two_strings_def)
  have b: "unat (3 :: 32 word) + 1 < 2 ^ 31" by simp
  from SetElement_grow [OF a b] show ?thesis by (simp add: two_strings_def)
qed

text \<open>
  At the index \<open>2 ^ 31 - 1\<close> the size \<open>n + 1\<close> no longer fits the \<^verbatim>\<open>int\<close>
  parameter of GrowVector, and at the largest index \<open>n + 1\<close> wraps to 0: nothing is
  added, and the store to \<^verbatim>\<open>zvec[n]\<close> is outside the vector.
\<close>

lemma SetElement_int_max_index:
  "SetElement 0x7FFFFFFF \<lparr>managed_val = 5\<rparr>
     (\<lparr>zvec = [], vv = 7, managed_yt = None, general_yt = None\<rparr>, (\<lambda>_. 1)) = None"
  by (simp add: SetElement_def GrowVector_def at_def)

text \<open>
  Claim C2, as stated, at the largest index: \<^verbatim>\<open>SetElement(4294967295, x)\<close> on an empty
  vector does not give a vector of \<open>2 ^ 32\<close> elements. \<open>n + 1\<close> is 0, GrowVector adds
  nothing, and the access \<^verbatim>\<open>zvec[n]\<close> is outside the vector.
\<close>

theorem SetElement_max_index:
  "SetElement 0xFFFFFFFF \<lparr>managed_val = 5\<rparr>
     (\<lparr>zvec = [], vv = 7, managed_yt = None, general_yt = None\<rparr>, (\<lambda>_. 1)) = None"
  by (simp add: SetElement_def GrowVector_def at_def)

text \<open>
  Claim C2, amended. For a vector of size \<open>n\<close> and an index \<open>k\<close> with \<open>n \<le> k\<close>
  whose successor fits an \<^verbatim>\<open>int\<close> (\<open>k + 1 < 2 ^ 31\<close>), SetElement(k, x) returns, and
  the vector has size \<open>k + 1\<close>; the elements at the indices below \<open>n\<close> are unchanged;
  those at the indices from \<open>n\<close> up to \<open>k\<close> are the nil cell; the element at \<open>k\<close> is
  \<open>x\<close>. The yield types stay, and no reference count changes: the occupant of slot
  \<open>k\<close> that is released is the nil cell, and no reference to \<open>x\<close> is acquired.
\<close>

theorem SetElement_grows:
  assumes "length (zvec v) \<le> unat k" and "unat k + 1 < 2 ^ 31"
  shows "\<exists>v'. SetElement k x (v, h) = Some (v', h) \<and>
           Size v' = unat k + 1 \<and>
           (\<forall>i < Size v. zvec v' ! i = zvec v ! i) \<and>
           (\<forall>i. Size v \<le> i \<and> i < unat k \<longrightarrow> zvec v' ! i = ZAMValUnion_default) \<and>
           zvec v' ! unat k = x \<and>
           managed_yt v' = managed_yt v \<and> general_yt v' = general_yt v"
proof -
  let ?z = "zvec v @ replicate (unat k - length (zvec v)) ZAMValUnion_default @ [x]"
  have 1: "length ?z = unat k + 1" using assms(1) by simp
  have 2: "\<forall>i < length (zvec v). ?z ! i = zvec v ! i" by (simp add: nth_append)
  have 3: "\<forall>i. length (zvec v) \<le> i \<and> i < unat k \<longrightarrow> ?z ! i = ZAMValUnion_default"
    by (auto simp: nth_append)
  have 4: "?z ! unat k = x" using assms(1) by (simp add: nth_append)
  show ?thesis
    using SetElement_grow [OF assms, of x h] 1 2 3 4 by (simp add: Size_def)
qed

theorem SetElement_grows_witness:
  "length (zvec two_strings) \<le> unat (3 :: 32 word) \<and> unat (3 :: 32 word) + 1 < 2 ^ 31 \<and>
   (\<exists>v'. SetElement 3 \<lparr>managed_val = 30\<rparr> (two_strings, one_each) = Some (v', one_each) \<and>
         Size v' = unat (3 :: 32 word) + 1 \<and>
         (\<forall>i < Size two_strings. zvec v' ! i = zvec two_strings ! i) \<and>
         (\<forall>i. Size two_strings \<le> i \<and> i < unat (3 :: 32 word) \<longrightarrow> zvec v' ! i = ZAMValUnion_default) \<and>
         zvec v' ! unat (3 :: 32 word) = \<lparr>managed_val = 30\<rparr> \<and>
         managed_yt v' = managed_yt two_strings \<and> general_yt v' = general_yt two_strings)"
proof -
  have a: "length (zvec two_strings) \<le> unat (3 :: 32 word)" by (simp add: two_strings_def)
  have b: "unat (3 :: 32 word) + 1 < 2 ^ 31" by simp
  from SetElement_grows [OF a b] a b show ?thesis by blast
qed

section \<open>Resize\<close>

lemma Resize_counts: "snd (Resize m s) = snd s"
  by (simp add: Resize_def split: prod.splits)

lemma Resize_shrink:
  "unat m \<le> length (zvec v) \<Longrightarrow> Resize m (v, h) = (v\<lparr>zvec := take (unat m) (zvec v)\<rparr>, h)"
  by (simp add: Resize_def)

text \<open>
  Claim C1. The claim wants Resize to release the elements it cuts off. Resize of the
  vector of the strings 10 and 20 to one element drops the string 20 and leaves its
  reference count at 1; releasing the evicted elements once each would leave it at 0.
\<close>

theorem Resize_shrink_keeps_counts:
  "Resize 1 (two_strings, one_each) = (two_strings\<lparr>zvec := [\<lparr>managed_val = 10\<rparr>]\<rparr>, one_each) \<and>
   snd (Resize 1 (two_strings, one_each)) 20 = 1 \<and>
   release_all (drop 1 (zvec two_strings)) one_each 20 = 0"
  by (simp add: Resize_def two_strings_def one_each_def DeleteManagedType_def Unref_def nullptr_def)

section \<open>Insert and Remove\<close>

lemma DeleteIfManaged_in_range:
  fixes k :: "32 word"
  assumes "unat k < length (zvec v)" and "unat k < 2 ^ 31"
  shows "DeleteIfManaged (sint k) (v, h) =
           Some (v, if managed_yt v \<noteq> None then Unref (managed_val (zvec v ! unat k)) h else h)"
proof -
  have s: "sint k = int (unat k)" using assms(2) by (rule sint_small)
  show ?thesis using assms(1) by (simp add: DeleteIfManaged_def s at_def DeleteManagedType_def)
qed

text \<open>
  Remove releases the element at the index, once, when the yield type is managed, and
  erases it.
\<close>

lemma Remove_releases_evicted:
  assumes "unat k < length (zvec v)" and "unat k < 2 ^ 31"
  shows "Remove k (v, h) =
           Some (v\<lparr>zvec := take (unat k) (zvec v) @ drop (Suc (unat k)) (zvec v)\<rparr>,
                 if managed_yt v \<noteq> None then Unref (managed_val (zvec v ! unat k)) h else h)"
  using assms by (simp add: Remove_def DeleteIfManaged_in_range)

lemma Insert_at_end:
  assumes "length (zvec v) \<le> unat k"
  shows "Insert k x (v, h) = Some (v\<lparr>zvec := zvec v @ [x]\<rparr>, h)"
  using assms by (simp add: Insert_def)

text \<open>
  Insert inside the vector releases the element at the index when the yield type is
  managed, although every element of the vector is still in it afterwards.
\<close>

lemma Insert_inside:
  assumes "unat k < length (zvec v)" and "unat k < 2 ^ 31"
  shows "Insert k x (v, h) =
           Some (v\<lparr>zvec := take (unat k) (zvec v) @ x # drop (unat k) (zvec v)\<rparr>,
                 if managed_yt v \<noteq> None then Unref (managed_val (zvec v ! unat k)) h else h)"
  using assms by (simp add: Insert_def DeleteIfManaged_in_range)

lemma Insert_keeps_all:
  assumes "Insert k x (v, h) = Some (v', h')"
  shows "set (zvec v) \<subseteq> set (zvec v')"
proof (cases "unat k < length (zvec v)")
  case True
  then obtain w g where d: "(if managed_yt v \<noteq> None then DeleteIfManaged (sint k) (v, h) else Some (v, h)) = Some (w, g)"
    and v': "v' = w\<lparr>zvec := take (unat k) (zvec w) @ x # drop (unat k) (zvec w)\<rparr>"
    using assms by (auto simp: Insert_def split: option.splits)
  from d have "w = v"
    by (auto simp: DeleteIfManaged_def split: if_splits option.splits)
  have "set (zvec v) = set (take (unat k) (zvec v)) \<union> set (drop (unat k) (zvec v))"
    by (metis append_take_drop_id set_append)
  then show ?thesis using v' \<open>w = v\<close> by auto
next
  case False
  then show ?thesis using assms by (auto simp: Insert_def)
qed

text \<open>
  Claim C6. The claim wants Insert to release no element that stays in the vector.
  Inserting the string 30 at index 0 of the vector of the strings 10 and 20 releases the
  string 10 (its count goes from 1 to 0), and the string 10 is still an element, now at
  index 1.
\<close>

theorem Insert_releases_survivor:
  "Insert 0 \<lparr>managed_val = 30\<rparr> (two_strings, one_each) =
     Some (two_strings\<lparr>zvec := [\<lparr>managed_val = 30\<rparr>, \<lparr>managed_val = 10\<rparr>, \<lparr>managed_val = 20\<rparr>]\<rparr>,
           Unref 10 one_each) \<and>
   Unref 10 one_each 10 = 0 \<and> one_each 10 = 1"
  by (simp add: Insert_def DeleteIfManaged_def at_def two_strings_def one_each_def
      DeleteManagedType_def Unref_def nullptr_def)

section \<open>Record fields\<close>
















text \<open>An assigned managed field: deleting it releases the held string once.\<close>

lemma lifecycle_example:
  "run_ops [OpAssign 0 \<lparr>managed_val = 10\<rparr>, OpDeleteField 0] (ab_record, one_each)
     = Some (ab_record\<lparr>rzvec := [\<lparr>managed_val = 10\<rparr>, ZAMValUnion_default]\<rparr>, Unref 10 one_each)"
  "Unref 10 one_each 10 = 0"
  by (simp_all add: Assign_def DeleteField_def IsInRecord_def IsManaged_def at_def
      ab_record_def ZAM_record_new_def ab_type_def IsManagedType_def string_type_def
      count_type_def Unref_def nullptr_def one_each_def)

section \<open>Lookup\<close>

lemma SetToDefault_Some:
  "default_value (rt r) f = Some d \<Longrightarrow>
   SetToDefault f r = (True, r\<lparr>rzvec := (rzvec r)[unat f := d]\<rparr>)"
  by (simp add: SetToDefault_def)

lemma SetToDefault_None:
  "default_value (rt r) f = None \<Longrightarrow> SetToDefault f r = (False, r)"
  by (simp add: SetToDefault_def)

lemma Lookup_present:
  assumes "valid_field f r" and "is_in_record r ! unat f"
  shows "Lookup f r = Some (rzvec r ! unat f, False, r)"
  using assms by (simp add: Lookup_def valid_field_def IsInRecord_def at_def)

lemma Lookup_default:
  assumes "valid_field f r" and "\<not> is_in_record r ! unat f"
    and "default_value (rt r) f = Some d"
  shows "Lookup f r = Some (d, False, r\<lparr>rzvec := (rzvec r)[unat f := d]\<rparr>)"
  using assms
  by (simp add: Lookup_def valid_field_def IsInRecord_def at_def SetToDefault_Some)

lemma Lookup_no_default:
  assumes "valid_field f r" and "\<not> is_in_record r ! unat f"
    and "default_value (rt r) f = None"
  shows "Lookup f r = Some (rzvec r ! unat f, True, r)"
  using assms
  by (simp add: Lookup_def valid_field_def IsInRecord_def at_def SetToDefault_None)

lemma Lookup_valid:
  assumes "valid_field f r"
  shows "Lookup f r =
           Some (if is_in_record r ! unat f then (rzvec r ! unat f, False, r)
                 else case default_value (rt r) f of
                        Some d \<Rightarrow> (d, False, r\<lparr>rzvec := (rzvec r)[unat f := d]\<rparr>)
                      | None \<Rightarrow> (rzvec r ! unat f, True, r))"
proof (cases "is_in_record r ! unat f")
  case True
  with assms show ?thesis by (simp add: Lookup_present)
next
  case False
  show ?thesis
  proof (cases "default_value (rt r) f")
    case None
    with assms False show ?thesis by (simp add: Lookup_no_default)
  next
    case (Some d)
    with assms False show ?thesis by (simp add: Lookup_default)
  qed
qed

text \<open>
  Claim C3. For every field \<open>f\<close> of a record, Lookup(f) returns (there is no crash):
  it gives a cell, the error flag and the record after the call. The flag is set if and
  only if the field is absent and the type has no default for it. The cell is the one
  stored at \<open>f\<close> after the call; for an absent field with a default it is the default.
\<close>

theorem Lookup_error_iff:
  assumes "valid_field f r"
  shows "\<exists>z error r'. Lookup f r = Some (z, error, r') \<and>
            (error \<longleftrightarrow> \<not> is_in_record r ! unat f \<and> default_value (rt r) f = None) \<and>
            z = rzvec r' ! unat f \<and>
            (\<forall>d. \<not> is_in_record r ! unat f \<and> default_value (rt r) f = Some d \<longrightarrow> z = d)"
proof (cases "is_in_record r ! unat f")
  case True
  with assms have "Lookup f r = Some (rzvec r ! unat f, False, r)" by (rule Lookup_present)
  with True show ?thesis by auto
next
  case False
  show ?thesis
  proof (cases "default_value (rt r) f")
    case None
    with assms False have "Lookup f r = Some (rzvec r ! unat f, True, r)"
      by (rule Lookup_no_default)
    with False None show ?thesis by auto
  next
    case (Some d)
    with assms False
    have "Lookup f r = Some (d, False, r\<lparr>rzvec := (rzvec r)[unat f := d]\<rparr>)"
      by (rule Lookup_default)
    moreover have "(rzvec r)[unat f := d] ! unat f = d"
      using assms by (simp add: valid_field_def)
    ultimately show ?thesis using False Some by auto
  qed
qed

theorem Lookup_error_iff_witness:
  "valid_field 1 ab_record \<and>
   (\<exists>z error r'. Lookup 1 ab_record = Some (z, error, r') \<and>
      (error \<longleftrightarrow> \<not> is_in_record ab_record ! unat (1 :: 32 word) \<and>
                 default_value (rt ab_record) 1 = None) \<and>
      z = rzvec r' ! unat (1 :: 32 word) \<and>
      (\<forall>d. \<not> is_in_record ab_record ! unat (1 :: 32 word) \<and>
           default_value (rt ab_record) 1 = Some d \<longrightarrow> z = d))"
proof -
  have v: "valid_field 1 ab_record"
    by (simp add: valid_field_def ab_record_def ZAM_record_new_def ab_type_def)
  from Lookup_error_iff [OF v] v show ?thesis by blast
qed

text \<open>
  On the record \<^verbatim>\<open>{a: string (optional), b: count with a default}\<close>: the absent
  \<open>a\<close> is an error, the absent \<open>b\<close> is its default 42.
\<close>

lemma Lookup_examples:
  "Lookup 0 ab_record = Some (ZAMValUnion_default, True, ab_record)"
  "Lookup 1 ab_record =
     Some (\<lparr>managed_val = 42\<rparr>, False,
           ab_record\<lparr>rzvec := [ZAMValUnion_default, \<lparr>managed_val = 42\<rparr>]\<rparr>)"
  by (simp_all add: Lookup_def IsInRecord_def at_def SetToDefault_def default_value_def
      ab_record_def ZAM_record_new_def ab_type_def)

section \<open>Original statements\<close>

lemma Original_no_link:
  "original (H s) = None \<Longrightarrow> Original H s = Some s"
  by (subst Original.simps) simp

lemma Original_link:
  "original (H s) = Some orig \<Longrightarrow> Original H s = Original H orig"
  by (subst Original.simps) simp

lemma root_of_no_link: "root_of H s r \<Longrightarrow> original (H r) = None"
  by (induction rule: root_of.induct) simp_all

lemma Original_root: "root_of H s r \<Longrightarrow> Original H s = Some r"
  by (induction rule: root_of.induct) (simp_all add: Original_no_link Original_link)

lemma root_of_unique:
  assumes "root_of H s r" and "root_of H s r'"
  shows "r' = r"
  using Original_root [OF assms(1)] Original_root [OF assms(2)] by simp

text \<open>Whenever Original returns, it returns the root of the chain.\<close>

lemma Original_returns_root:
  assumes "Original H s = Some r"
  shows "root_of H s r"
proof (induction rule: Original.raw_induct)
  case (1 Original' H this y)
  note facts = this
  show ?case
  proof (cases "original (H this)")
    case None
    with facts have "y = this" by simp
    with None show ?thesis by (simp add: root_of.root)
  next
    case (Some orig)
    with facts have a: "Original' H orig = Some y" by simp
    from facts a have "root_of H orig y" by blast
    with Some show ?thesis by (rule root_of.link)
  qed
qed (rule assms)

text \<open>On a node that is its own original the recursion never returns.\<close>

lemma self_link_no_root:
  assumes "root_of H x r" and "original (H x) = Some x"
  shows False
  using assms by (induction rule: root_of.induct) simp_all

lemma Original_self_link:
  assumes "original (H s) = Some s"
  shows "Original H s = None"
proof (cases "Original H s")
  case None
  then show ?thesis .
next
  case (Some r)
  then have "root_of H s r" by (rule Original_returns_root)
  with assms show ?thesis by (blast dest: self_link_no_root)
qed

text \<open>
  How the chains come about: linking a statement that has no original yet to a statement
  with a root keeps every chain, and gives the linked statement that root.
\<close>

lemma root_of_SetOriginal_chain:
  assumes "root_of H x r" and "original (H s) = None" and "s \<noteq> r"
  shows "root_of (SetOriginal s orig H) x r"
  using assms
proof (induction rule: root_of.induct)
  case (root H x)
  then show ?case by (simp add: SetOriginal_def root_of.root)
next
  case (link H x y r)
  from link.hyps(1) link.prems(1) have "x \<noteq> s" by auto
  with link.hyps(1) have "original (SetOriginal s orig H x) = Some y"
    by (simp add: SetOriginal_def)
  moreover have "root_of (SetOriginal s orig H) y r"
    using link.IH link.prems by simp
  ultimately show ?case by (rule root_of.link)
qed

lemma root_of_SetOriginal:
  assumes "root_of H orig r" and "original (H s) = None" and "s \<noteq> r"
  shows "root_of (SetOriginal s orig H) s r"
proof -
  have "original (SetOriginal s orig H s) = Some orig"
    using assms(2) by (simp add: SetOriginal_def)
  moreover have "root_of (SetOriginal s orig H) orig r"
    using assms by (rule root_of_SetOriginal_chain)
  ultimately show ?thesis by (rule root_of.link)
qed

lemma Original_SetOriginal:
  assumes "root_of H orig r" and "original (H s) = None" and "s \<noteq> r"
  shows "Original (SetOriginal s orig H) s = Some r"
  using root_of_SetOriginal [OF assms] by (rule Original_root)

text \<open>
  Claim C7. For a statement whose chain of original links ends in a root \<open>r\<close>,
  Original returns \<open>r\<close>: the statement itself if it has no link, and otherwise what
  Original returns on its original. The root has no link, so Original on the result
  returns the same node again: Original is idempotent, however long the chain.
\<close>

theorem Original_root_idempotent:
  assumes "root_of H s r"
  shows "Original H s = Some r \<and> original (H r) = None \<and> Original H r = Some r \<and>
         (case original (H s) of
            None \<Rightarrow> r = s
          | Some orig \<Rightarrow> Original H orig = Some r)"
proof -
  have 1: "Original H s = Some r" using assms by (rule Original_root)
  have 2: "original (H r) = None" using assms by (rule root_of_no_link)
  have 3: "Original H r = Some r" using 2 by (rule Original_no_link)
  have 4: "original (H s) = None \<longrightarrow> r = s"
    using 1 by (auto simp: Original_no_link)
  have 5: "\<forall>orig. original (H s) = Some orig \<longrightarrow> Original H orig = Some r"
    using 1 by (auto simp: Original_link)
  from 4 5 have 6: "case original (H s) of None \<Rightarrow> r = s | Some orig \<Rightarrow> Original H orig = Some r"
    by (simp split: option.splits)
  from 1 2 3 6 show ?thesis by blast
qed

theorem Original_root_idempotent_witness:
  "root_of three_stmts 2 0 \<and>
   Original three_stmts 2 = Some 0 \<and> original (three_stmts 0) = None \<and>
   Original three_stmts 0 = Some 0 \<and>
   (case original (three_stmts 2) of
      None \<Rightarrow> (0 :: stmt_ptr) = 2
    | Some orig \<Rightarrow> Original three_stmts orig = Some 0)"
proof -
  have r0: "root_of three_stmts 0 0"
    by (rule root_of.root) (simp add: three_stmts_def)
  have r1: "root_of three_stmts 1 0"
    by (rule root_of.link [OF _ r0]) (simp add: three_stmts_def)
  have r2: "root_of three_stmts 2 0"
    by (rule root_of.link [OF _ r1]) (simp add: three_stmts_def)
  from Original_root_idempotent [OF r2] r2 show ?thesis by blast
qed

end
